theory Spec2Isabelle
  imports Main "HOL-Library.AList"
begin

section \<open>Python values and exceptions\<close>

text \<open>
  The values stored in notification dictionaries. Only their truth value matters to
  \<^verbatim>\<open>observer.py\<close>: \<^verbatim>\<open>None\<close>, \<^verbatim>\<open>False\<close>, \<^verbatim>\<open>0\<close> and the
  empty string are falsy, every other value modelled here is truthy. \<open>PyObj\<close> stands for
  an object without \<^verbatim>\<open>__bool__\<close> or \<^verbatim>\<open>__len__\<close> (a model instance, say).
\<close>

datatype pyval = PyNone | PyBool bool | PyInt int | PyStr string | PyObj nat

fun truthy :: "pyval \<Rightarrow> bool" where
  "truthy PyNone = False"
| "truthy (PyBool b) = b"
| "truthy (PyInt i) = (i \<noteq> 0)"
| "truthy (PyStr s) = (s \<noteq> [])"
| "truthy (PyObj _) = True"

text \<open>The exceptions that \<^verbatim>\<open>observer.py\<close> raises, or lets escape from a dictionary or set.\<close>

datatype error = KeyError | AssertionError | AttributeError | ValueError

section \<open>NTInfo\<close>

text \<open>
  \<^verbatim>\<open>class NTInfo (dict)\<close>: the object is its dictionary. Keys are the keyword names of
  the notification, so they are strings.
\<close>

type_synonym ntinfo = "string \<rightharpoonup> pyval"

definition ONE_REQUESTED :: "string list" where
  "ONE_REQUESTED = [''assign'', ''before'', ''after'', ''signal'']"

definition ALL_REQUESTED :: "string list" where
  "ALL_REQUESTED = [''model'', ''prop_name'']"

text \<open>
  The loop of \<^verbatim>\<open>__init__\<close> over \<^verbatim>\<open>__ONE_REQUESTED\<close>:
  \<^verbatim>\<open>if flag != _type and flag in self: del self[flag]\<close>.
\<close>

fun remove_flags :: "string \<Rightarrow> string list \<Rightarrow> ntinfo \<Rightarrow> ntinfo" where
  "remove_flags ntype [] self = self"
| "remove_flags ntype (flag # flags) self =
     remove_flags ntype flags
       (if flag \<noteq> ntype \<and> self flag \<noteq> None then self(flag := None) else self)"

text \<open>
  \<^verbatim>\<open>NTInfo.__init__(self, _type, *args, **kwargs)\<close>. The argument \<open>d\<close> is the dictionary
  that \<^verbatim>\<open>dict.__init__(self, *args, **kwargs)\<close> has built. The checks are in the source's
  order: the flag named by \<^verbatim>\<open>_type\<close> (here \<open>ntype\<close>) (KeyError), then the assertion on
  \<^verbatim>\<open>__ALL_REQUESTED\<close> (AssertionError), then the removal of the other flags.
\<close>

definition NTInfo_init :: "string \<Rightarrow> ntinfo \<Rightarrow> error + ntinfo" where
  "NTInfo_init ntype d =
     (if \<not> (case d ntype of None \<Rightarrow> False | Some v \<Rightarrow> truthy v) then Inl KeyError
      else if \<not> list_all (\<lambda>k. d k \<noteq> None) ALL_REQUESTED then Inl AssertionError
      else Inr (remove_flags ntype ONE_REQUESTED d))"

text \<open>
  \<^verbatim>\<open>NTInfo.__getattr__(self, name)\<close>: \<^verbatim>\<open>self[name]\<close>, with the KeyError of a missing
  key turned into AttributeError.
\<close>

definition NTInfo_getattr :: "ntinfo \<Rightarrow> string \<Rightarrow> error + pyval" where
  "NTInfo_getattr self name =
     (case self name of Some v \<Rightarrow> Inr v | None \<Rightarrow> Inl AttributeError)"

text \<open>
  Python calls \<^verbatim>\<open>__getattr__\<close> only when the normal lookup of the attribute has failed.
  \<^verbatim>\<open>NTInfo\<close> derives from \<^verbatim>\<open>dict\<close>, so the normal lookup finds the attributes of
  \<^verbatim>\<open>dict\<close> first. \<open>dict_methods\<close> lists the public methods of \<^verbatim>\<open>dict\<close>; the
  predicate \<open>found\<close> of \<open>attribute_access\<close> says which names the normal lookup
  finds (these methods, and the special attributes every object has).
\<close>

definition dict_methods :: "string list" where
  "dict_methods = [''clear'', ''copy'', ''fromkeys'', ''get'', ''items'', ''keys'',
     ''pop'', ''popitem'', ''setdefault'', ''update'', ''values'']"

datatype attribute = Entry pyval | Inherited string

definition attribute_access :: "(string \<Rightarrow> bool) \<Rightarrow> ntinfo \<Rightarrow> string \<Rightarrow> error + attribute" where
  "attribute_access found self name =
     (if found name then Inr (Inherited name)
      else case NTInfo_getattr self name of Inl e \<Rightarrow> Inl e | Inr v \<Rightarrow> Inr (Entry v))"

text \<open>
  The operations a holder of an \<^verbatim>\<open>NTInfo\<close> object can apply to it: reading an attribute
  (\<^verbatim>\<open>__getattr__\<close> above), and the item operations \<^verbatim>\<open>n[k]\<close>, \<^verbatim>\<open>n[k] = v\<close> and
  \<^verbatim>\<open>del n[k]\<close>, which \<^verbatim>\<open>NTInfo\<close> inherits from \<^verbatim>\<open>dict\<close> and does not override.
  Each returns its result and the dictionary after it.
\<close>

datatype nt_op = GetAttr string | GetItem string | SetItem string pyval | DelItem string

fun nt_apply :: "nt_op \<Rightarrow> ntinfo \<Rightarrow> (error + pyval) \<times> ntinfo" where
  "nt_apply (GetAttr name) self = (NTInfo_getattr self name, self)"
| "nt_apply (GetItem k) self =
     ((case self k of Some v \<Rightarrow> Inr v | None \<Rightarrow> Inl KeyError), self)"
| "nt_apply (SetItem k v) self = (Inr PyNone, self(k \<mapsto> v))"
| "nt_apply (DelItem k) self =
     (case self k of Some _ \<Rightarrow> (Inr PyNone, self(k := None)) | None \<Rightarrow> (Inl KeyError, self))"

fun reads_only :: "nt_op \<Rightarrow> bool" where
  "reads_only (GetAttr _) = True"
| "reads_only (GetItem _) = True"
| "reads_only (SetItem _ _) = False"
| "reads_only (DelItem _) = False"

section \<open>Observer\<close>

text \<open>
  A notification method is a hashable Python object. \<open>Method f\<close> is the bound method of
  the observer whose function object is \<open>f\<close> (bound methods of one instance are equal
  exactly when their functions are the same object); \<open>Object v\<close> is any other object
  that has a \<^verbatim>\<open>__name__\<close> attribute (a function, a class, a builtin);
  \<open>Nameless v\<close> is an object that has none (a \<^verbatim>\<open>functools.partial\<close>, an instance
  with \<^verbatim>\<open>__call__\<close>, \<^verbatim>\<open>None\<close>).
\<close>

datatype callable = Method nat | Object nat | Nameless nat

fun has_name :: "callable \<Rightarrow> bool" where
  "has_name (Method _) = True"
| "has_name (Object _) = True"
| "has_name (Nameless _) = False"

type_synonym kwargs = "(string \<times> pyval) list"

text \<open>
  The five private dictionaries of an \<^verbatim>\<open>Observer\<close>. \<^verbatim>\<open>__PAT_TO_METHS\<close> is the one
  the code iterates over (\<^verbatim>\<open>.items()\<close> in \<^verbatim>\<open>get_observing_methods\<close>), so it is an
  association list in insertion order; the others are only looked up, written and deleted
  by key.
\<close>

record observer =
  PROP_TO_METHS :: "string \<rightharpoonup> callable set"
  METH_TO_PROPS :: "callable \<rightharpoonup> string set"
  PAT_TO_METHS :: "(string \<times> callable set) list"
  METH_TO_PAT :: "callable \<rightharpoonup> string"
  PAT_METH_TO_KWARGS :: "string \<times> callable \<rightharpoonup> kwargs"

definition Observer_empty :: observer where
  "Observer_empty = \<lparr>PROP_TO_METHS = Map.empty, METH_TO_PROPS = Map.empty, PAT_TO_METHS = [],
     METH_TO_PAT = Map.empty, PAT_METH_TO_KWARGS = Map.empty\<rparr>"

definition WILDCARDS :: "char set" where
  "WILDCARDS = set ''[]!*?''"

text \<open>\<^verbatim>\<open>frozenset(prop_name) & WILDCARDS\<close>, as a truth value.\<close>

definition has_wildcards :: "string \<Rightarrow> bool" where
  "has_wildcards prop_name = (set prop_name \<inter> WILDCARDS \<noteq> {})"

text \<open>
  The methods stored under a name in \<^verbatim>\<open>__PROP_TO_METHS\<close> and under a pattern in
  \<^verbatim>\<open>__PAT_TO_METHS\<close> (\<^verbatim>\<open>d.get(key, set())\<close>).
\<close>

definition exact_methods :: "observer \<Rightarrow> string \<Rightarrow> callable set" where
  "exact_methods self prop_name =
     (case PROP_TO_METHS self prop_name of None \<Rightarrow> {} | Some ms \<Rightarrow> ms)"

definition pattern_methods :: "observer \<Rightarrow> string \<Rightarrow> callable set" where
  "pattern_methods self pat =
     (case map_of (PAT_TO_METHS self) pat of None \<Rightarrow> {} | Some ms \<Rightarrow> ms)"

text \<open>
  Each of the three \<^verbatim>\<open>raise ValueError("..." % (..., method.__name__, ...))\<close> of the
  registration builds its message before it raises, and the message reads
  \<^verbatim>\<open>method.__name__\<close>: for a callable that has no such attribute, the exception that
  leaves the call is the AttributeError of that read.
\<close>

definition raise_ValueError :: "callable \<Rightarrow> error" where
  "raise_ValueError method = (if has_name method then ValueError else AttributeError)"

text \<open>
  \<^verbatim>\<open>Observer.__register_notification(self, prop_name, method, kwargs)\<close>. Every
  \<^verbatim>\<open>raise\<close> comes before the first write, so a failed call returns the observer it got.
\<close>

definition register_notification ::
  "string \<Rightarrow> callable \<Rightarrow> kwargs \<Rightarrow> observer \<Rightarrow> (error + unit) \<times> observer" where
  "register_notification prop_name method kwargs self =
     (let key = (prop_name, method) in
      if key \<in> dom (PAT_METH_TO_KWARGS self) then (Inl (raise_ValueError method), self)
      else if has_wildcards prop_name then
        (if method \<in> dom (METH_TO_PAT self) \<or>
            (case METH_TO_PROPS self method of None \<Rightarrow> False | Some ps \<Rightarrow> ps \<noteq> {})
         then (Inl (raise_ValueError method), self)
         else (Inr (),
           self\<lparr>METH_TO_PAT := (METH_TO_PAT self)(method \<mapsto> prop_name),
                PAT_TO_METHS := AList.update prop_name
                   (insert method (pattern_methods self prop_name)) (PAT_TO_METHS self),
                PAT_METH_TO_KWARGS := (PAT_METH_TO_KWARGS self)(key \<mapsto> kwargs)\<rparr>))
      else
        (if method \<in> dom (METH_TO_PAT self) then (Inl (raise_ValueError method), self)
         else (Inr (),
           self\<lparr>METH_TO_PROPS := (METH_TO_PROPS self)(method \<mapsto>
                   insert prop_name
                     (case METH_TO_PROPS self method of None \<Rightarrow> {} | Some ps \<Rightarrow> ps)),
                PROP_TO_METHS := (PROP_TO_METHS self)(prop_name \<mapsto>
                   insert method (exact_methods self prop_name)),
                PAT_METH_TO_KWARGS := (PAT_METH_TO_KWARGS self)(key \<mapsto> kwargs)\<rparr>)))"

text \<open>
  \<^verbatim>\<open>Observer.observe\<close> called on an instance, \<^verbatim>\<open>self.observe(notified, name, **kwargs)\<close>:
  after the checks that there are three positional arguments, that \<open>notified\<close> is callable
  and that \<open>name\<close> is a string (which the types here say), it is the registration.
\<close>

definition observe :: "callable \<Rightarrow> string \<Rightarrow> kwargs \<Rightarrow> observer \<Rightarrow> (error + unit) \<times> observer" where
  "observe notified name kwargs self = register_notification name notified kwargs self"

text \<open>
  \<^verbatim>\<open>fnmatch.fnmatch(name, pat)\<close> is Python's library, not this repository: the functions
  that call it take it as the parameter \<open>fnmatch\<close>.

  \<^verbatim>\<open>Observer.get_observing_methods(self, prop_name)\<close>:
  \<^verbatim>\<open>functools.reduce(set.union, (meths for pat, meths in items if fnmatch(prop_name, pat)), set())\<close>
  united with \<^verbatim>\<open>self.__PROP_TO_METHS.get(prop_name, set())\<close>.
\<close>

definition get_observing_methods ::
  "(string \<Rightarrow> string \<Rightarrow> bool) \<Rightarrow> observer \<Rightarrow> string \<Rightarrow> callable set" where
  "get_observing_methods fnmatch self prop_name =
     foldl (\<union>) {} [meths. (pat, meths) \<leftarrow> PAT_TO_METHS self, fnmatch prop_name pat]
       \<union> exact_methods self prop_name"

text \<open>
  One round of the loop of \<^verbatim>\<open>remove_observing_method\<close>. \<^verbatim>\<open>set.remove\<close> and
  \<^verbatim>\<open>del\<close> raise KeyError on a missing element or key; the writes made before a
  \<^verbatim>\<open>raise\<close> stay, so the observer after the call is returned with the error too. The
  last \<^verbatim>\<open>del\<close> of the pattern branch is outside the \<^verbatim>\<open>if fnmatch...\<close>, as in the
  source.
\<close>

definition remove_one ::
  "(string \<Rightarrow> string \<Rightarrow> bool) \<Rightarrow> string \<Rightarrow> callable \<Rightarrow> observer \<Rightarrow> (error + unit) \<times> observer" where
  "remove_one fnmatch prop_name method self =
     (case PROP_TO_METHS self prop_name of
        Some ms \<Rightarrow>
          if method \<notin> ms then (Inl KeyError, self)
          else
            let self1 = self\<lparr>PROP_TO_METHS := (PROP_TO_METHS self)(prop_name \<mapsto> ms - {method})\<rparr>
            in if PAT_METH_TO_KWARGS self1 (prop_name, method) = None then (Inl KeyError, self1)
               else (Inr (), self1\<lparr>PAT_METH_TO_KWARGS :=
                       (PAT_METH_TO_KWARGS self1)((prop_name, method) := None)\<rparr>)
      | None \<Rightarrow>
          (case METH_TO_PAT self method of
             None \<Rightarrow> (Inr (), self)
           | Some pat \<Rightarrow>
               (case (if fnmatch prop_name pat then
                        let self1 = self\<lparr>METH_TO_PAT := (METH_TO_PAT self)(method := None)\<rparr>
                        in (case map_of (PAT_TO_METHS self1) pat of
                              None \<Rightarrow> (Inl KeyError, self1)
                            | Some ms \<Rightarrow>
                                if method \<notin> ms then (Inl KeyError, self1)
                                else (Inr (), self1\<lparr>PAT_TO_METHS :=
                                        AList.update pat (ms - {method}) (PAT_TO_METHS self1)\<rparr>))
                      else (Inr (), self)) of
                  (Inl e, self2) \<Rightarrow> (Inl e, self2)
                | (Inr _, self2) \<Rightarrow>
                    if PAT_METH_TO_KWARGS self2 (pat, method) = None then (Inl KeyError, self2)
                    else (Inr (), self2\<lparr>PAT_METH_TO_KWARGS :=
                            (PAT_METH_TO_KWARGS self2)((pat, method) := None)\<rparr>))))"

text \<open>\<^verbatim>\<open>Observer.remove_observing_method(self, prop_names, method)\<close>: the loop, left at the first exception.\<close>

fun remove_observing_method ::
  "(string \<Rightarrow> string \<Rightarrow> bool) \<Rightarrow> string list \<Rightarrow> callable \<Rightarrow> observer \<Rightarrow> (error + unit) \<times> observer" where
  "remove_observing_method fnmatch [] method self = (Inr (), self)"
| "remove_observing_method fnmatch (prop_name # prop_names) method self =
     (case remove_one fnmatch prop_name method self of
        (Inl e, self') \<Rightarrow> (Inl e, self')
      | (Inr _, self') \<Rightarrow> remove_observing_method fnmatch prop_names method self')"

section \<open>Instantiation: the decorated methods along the method resolution order\<close>

text \<open>
  An entry of a class's \<^verbatim>\<open>__dict__\<close>: a plain function (the only entries for which
  \<^verbatim>\<open>inspect.isfunction\<close> holds), with the list its \<^verbatim>\<open>__custom_observes__\<close> attribute
  holds when a decorator has set it, or anything else: \<open>NonFunction v\<close>, where
  \<open>v\<close> is the object that reading the attribute on the instance gives. The list has
  one \<^verbatim>\<open>(name, kwargs)\<close> pair for each \<^verbatim>\<open>observe\<close> applied to the function, in the
  order the decorators were applied (the one nearest to the \<^verbatim>\<open>def\<close> first).
\<close>

datatype attr = Function nat "(string \<times> kwargs) list option" | NonFunction callable

type_synonym pyclass = "(string \<times> attr) list"

text \<open>
  The list comprehension \<^verbatim>\<open>meths\<close> of \<^verbatim>\<open>Observer.__init__\<close>: method name, method
  object and observed names, for the functions of \<^verbatim>\<open>cls.__dict__\<close> that carry
  \<^verbatim>\<open>__custom_observes__\<close>.
\<close>

definition meths :: "pyclass \<Rightarrow> (string \<times> nat \<times> (string \<times> kwargs) list) list" where
  "meths cls = [(name, meth, pnames_ka). (name, Function meth (Some pnames_ka)) \<leftarrow> cls]"

text \<open>
  \<^verbatim>\<open>getattr(self, name)\<close>: an attribute of the instance itself comes first (when the loop
  runs the instance already has some, \<^verbatim>\<open>observe\<close> among them), then the first class of
  the method resolution order whose \<^verbatim>\<open>__dict__\<close> has the name; a function found there
  comes back bound to the instance. \<open>inst\<close> is the instance's own \<^verbatim>\<open>__dict__\<close>.
\<close>

fun mro_lookup :: "pyclass list \<Rightarrow> string \<Rightarrow> attr option" where
  "mro_lookup [] name = None"
| "mro_lookup (cls # mro) name =
     (case map_of cls name of Some a \<Rightarrow> Some a | None \<Rightarrow> mro_lookup mro name)"

definition getattr_self :: "(string \<rightharpoonup> callable) \<Rightarrow> pyclass list \<Rightarrow> string \<Rightarrow> error + callable" where
  "getattr_self inst mro name =
     (case inst name of
        Some v \<Rightarrow> Inr v
      | None \<Rightarrow>
          (case mro_lookup mro name of
             Some (Function f _) \<Rightarrow> Inr (Method f)
           | Some (NonFunction v) \<Rightarrow> Inr v
           | None \<Rightarrow> Inl AttributeError))"

text \<open>
  The innermost loop, \<^verbatim>\<open>for pname, ka in pnames_ka\<close>: a name not in
  \<^verbatim>\<open>processed_props\<close> is registered for \<^verbatim>\<open>_method\<close> and added to
  \<^verbatim>\<open>cls_processed_props\<close>. An exception of the registration leaves the constructor.
\<close>

fun register_pnames ::
  "callable \<Rightarrow> string set \<Rightarrow> (string \<times> kwargs) list \<Rightarrow> observer \<times> string set
     \<Rightarrow> error + observer \<times> string set" where
  "register_pnames method processed_props [] (self, cls_processed_props) =
     Inr (self, cls_processed_props)"
| "register_pnames method processed_props ((pname, ka) # pnames_ka) (self, cls_processed_props) =
     (if pname \<notin> processed_props then
        (case register_notification pname method ka self of
           (Inl e, _) \<Rightarrow> Inl e
         | (Inr _, self') \<Rightarrow>
             register_pnames method processed_props pnames_ka
               (self', insert pname cls_processed_props))
      else register_pnames method processed_props pnames_ka (self, cls_processed_props))"

text \<open>The loop \<^verbatim>\<open>for name, meth, pnames_ka in meths\<close> of one class.\<close>

fun process_meths ::
  "(string \<rightharpoonup> callable) \<Rightarrow> pyclass list \<Rightarrow> string set \<Rightarrow>
     (string \<times> nat \<times> (string \<times> kwargs) list) list \<Rightarrow> observer \<times> string set
     \<Rightarrow> error + observer \<times> string set" where
  "process_meths inst mro processed_props [] st = Inr st"
| "process_meths inst mro processed_props ((name, meth, pnames_ka) # ms) st =
     (case getattr_self inst mro name of
        Inl e \<Rightarrow> Inl e
      | Inr method \<Rightarrow>
          (case register_pnames method processed_props pnames_ka st of
             Inl e \<Rightarrow> Inl e
           | Inr st' \<Rightarrow> process_meths inst mro processed_props ms st'))"

text \<open>
  The loop \<^verbatim>\<open>for cls in inspect.getmro(type(self))\<close>: each class starts with an empty
  \<^verbatim>\<open>cls_processed_props\<close>, which is added to \<^verbatim>\<open>processed_props\<close> after the class.
\<close>

fun process_classes ::
  "(string \<rightharpoonup> callable) \<Rightarrow> pyclass list \<Rightarrow> pyclass list \<Rightarrow> observer \<times> string set
     \<Rightarrow> error + observer" where
  "process_classes inst mro [] (self, processed_props) = Inr self"
| "process_classes inst mro (cls # rest) (self, processed_props) =
     (case process_meths inst mro processed_props (meths cls) (self, {}) of
        Inl e \<Rightarrow> Inl e
      | Inr (self', cls_processed_props) \<Rightarrow>
          process_classes inst mro rest (self', processed_props \<union> cls_processed_props))"

text \<open>
  \<^verbatim>\<open>Observer.__init__(self, model=None)\<close> for an instance whose class has the method
  resolution order \<open>mro\<close>: the five dictionaries start empty and the loops above fill
  them. (With a model, \<^verbatim>\<open>model.register_observer(self)\<close> follows; it belongs to the
  model and does not write the dictionaries.)
\<close>

definition Observer_init :: "(string \<rightharpoonup> callable) \<Rightarrow> pyclass list \<Rightarrow> error + observer" where
  "Observer_init inst mro = process_classes inst mro mro (Observer_empty, {})"




section \<open>The states an observer can reach\<close>

text \<open>
  An observer exists once its constructor has returned; after that, its dictionaries are
  written by \<^verbatim>\<open>observe\<close> and \<^verbatim>\<open>remove_observing_method\<close> only. A call that raises
  leaves the observer as it is at the \<^verbatim>\<open>raise\<close>, and the program may go on using it.
\<close>

inductive reachable :: "(string \<Rightarrow> string \<Rightarrow> bool) \<Rightarrow> observer \<Rightarrow> bool"
  for fnmatch :: "string \<Rightarrow> string \<Rightarrow> bool" where
  constructed: "Observer_init inst mro = Inr self \<Longrightarrow> reachable fnmatch self"
| observed: "reachable fnmatch self \<Longrightarrow> reachable fnmatch (snd (observe notified name kwargs self))"
| removed: "reachable fnmatch self \<Longrightarrow>
     reachable fnmatch (snd (remove_observing_method fnmatch prop_names method self))"

text \<open>
  A matcher for patterns made of literal characters, \<^verbatim>\<open>*\<close> (any run of characters) and
  \<^verbatim>\<open>?\<close> (any one character), on which it agrees with \<^verbatim>\<open>fnmatch\<close>. The theorems below
  hold for every matcher; this one is what they are evaluated with on concrete observers.
\<close>

fun glob :: "string \<Rightarrow> string \<Rightarrow> bool" where
  "glob [] [] = True"
| "glob (c # cs) [] = False"
| "glob name (p # ps) =
     (if p = CHR ''*'' then
        glob name ps \<or> (case name of [] \<Rightarrow> False | c # cs \<Rightarrow> glob cs (p # ps))
      else (case name of [] \<Rightarrow> False | c # cs \<Rightarrow> (p = CHR ''?'' \<or> p = c) \<and> glob cs ps))"


section \<open>Consistency of the five dictionaries\<close>

text \<open>
  What the dictionaries of an observer satisfy together, whatever calls were made: the
  keys of \<^verbatim>\<open>__PAT_TO_METHS\<close> are distinct (it is a dictionary); a method stored under a
  pattern has that pattern in \<^verbatim>\<open>__METH_TO_PAT\<close>; a method stored under an exact name has
  the name in \<^verbatim>\<open>__METH_TO_PROPS\<close> and the pair in \<^verbatim>\<open>__PAT_METH_TO_KWARGS\<close>; the keys
  of \<^verbatim>\<open>__PROP_TO_METHS\<close> have no wildcard and the patterns of \<^verbatim>\<open>__METH_TO_PAT\<close> have one.
\<close>

definition consistent :: "observer \<Rightarrow> bool" where
  "consistent self \<longleftrightarrow>
     distinct (map fst (PAT_TO_METHS self)) \<and>
     (\<forall>pat m. m \<in> pattern_methods self pat \<longrightarrow> METH_TO_PAT self m = Some pat) \<and>
     (\<forall>p m. m \<in> exact_methods self p \<longrightarrow> (\<exists>ps. METH_TO_PROPS self m = Some ps \<and> p \<in> ps)) \<and>
     (\<forall>p m. m \<in> exact_methods self p \<longrightarrow> PAT_METH_TO_KWARGS self (p, m) \<noteq> None) \<and>
     (\<forall>p. PROP_TO_METHS self p \<noteq> None \<longrightarrow> \<not> has_wildcards p) \<and>
     (\<forall>m pat. METH_TO_PAT self m = Some pat \<longrightarrow> has_wildcards pat)"

section \<open>Concrete inputs\<close>

text \<open>
  The dictionary of an assign notification, as the framework builds it, and one that also
  carries a keyword of the user's named \<^verbatim>\<open>items\<close> (excess keywords of \<^verbatim>\<open>observe\<close> are
  passed on in the info dictionary).
\<close>

definition info_assign :: ntinfo where
  "info_assign = [''model'' \<mapsto> PyObj 0, ''prop_name'' \<mapsto> PyStr ''x'', ''assign'' \<mapsto> PyBool True,
     ''before'' \<mapsto> PyBool False, ''old'' \<mapsto> PyInt 1, ''new'' \<mapsto> PyInt 2]"

definition info_items :: ntinfo where
  "info_items = [''model'' \<mapsto> PyObj 0, ''prop_name'' \<mapsto> PyStr ''x'', ''assign'' \<mapsto> PyBool True,
     ''items'' \<mapsto> PyInt 5]"

text \<open>
  An observer class and its base class:
  \<^verbatim>\<open>
  class Base (Observer):
      @Observer.observe("a", assign=True)
      def on_a(self, model, name, info): ...        # function 1
      @Observer.observe("b", assign=True)
      def on_b(self, model, name, info): ...        # function 2

  class Derived (Base):
      @Observer.observe("a", signal=True)
      def on_a(self, model, name, info): ...        # function 3
      def on_b(self, model, name, info): ...        # function 4, not decorated
      @Observer.observe("a*", assign=True)
      def on_any(self, model, name, info): ...      # function 5
      @Observer.observe("a*", assign=True)
      def log_any(self, model, name, info): ...     # function 6
  \<close>
\<close>

definition Base_class :: pyclass where
  "Base_class =
     [(''on_a'', Function 1 (Some [(''a'', [(''assign'', PyBool True)])])),
      (''on_b'', Function 2 (Some [(''b'', [(''assign'', PyBool True)])]))]"

definition Derived_class :: pyclass where
  "Derived_class =
     [(''on_a'', Function 3 (Some [(''a'', [(''signal'', PyBool True)])])),
      (''on_b'', Function 4 None),
      (''on_any'', Function 5 (Some [(''a*'', [(''assign'', PyBool True)])])),
      (''log_any'', Function 6 (Some [(''a*'', [(''assign'', PyBool True)])]))]"

definition Observer_class :: pyclass where
  "Observer_class =
     [(''observe'', NonFunction (Object 0)), (''get_observing_methods'', Function 7 None)]"

definition Derived_mro :: "pyclass list" where
  "Derived_mro = [Derived_class, Base_class, Observer_class]"

definition Derived_inst :: "string \<rightharpoonup> callable" where
  "Derived_inst = [''observe'' \<mapsto> Object 0]"

text \<open>The observer that \<^verbatim>\<open>Derived()\<close> constructs, dictionary by dictionary.\<close>

definition Derived_observer :: observer where
  "Derived_observer =
     \<lparr>PROP_TO_METHS = [''a'' \<mapsto> {Method 3}, ''b'' \<mapsto> {Method 4}],
      METH_TO_PROPS = [Method 3 \<mapsto> {''a''}, Method 4 \<mapsto> {''b''}],
      PAT_TO_METHS = [(''a*'', {Method 5, Method 6})],
      METH_TO_PAT = [Method 5 \<mapsto> ''a*'', Method 6 \<mapsto> ''a*''],
      PAT_METH_TO_KWARGS =
        [(''a'', Method 3) \<mapsto> [(''signal'', PyBool True)],
         (''a*'', Method 5) \<mapsto> [(''assign'', PyBool True)],
         (''a*'', Method 6) \<mapsto> [(''assign'', PyBool True)],
         (''b'', Method 4) \<mapsto> [(''assign'', PyBool True)]]\<rparr>"

text \<open>
  A class that decorates one method with two patterns:
  \<^verbatim>\<open>
  class Twice (Observer):
      @Observer.observe("a*", assign=True)
      @Observer.observe("b*", assign=True)
      def on_any(self, model, name, info): ...      # function 8
  \<close>
\<close>

definition Twice_class :: pyclass where
  "Twice_class =
     [(''on_any'', Function 8 (Some [(''b*'', [(''assign'', PyBool True)]),
                                      (''a*'', [(''assign'', PyBool True)])]))]"



text \<open>An assign notification whose dictionary also carries a truthy \<^verbatim>\<open>signal\<close> flag.\<close>

definition info_two_flags :: ntinfo where
  "info_two_flags = [''model'' \<mapsto> PyObj 0, ''prop_name'' \<mapsto> PyStr ''x'', ''assign'' \<mapsto> PyBool True,
     ''signal'' \<mapsto> PyBool True, ''before'' \<mapsto> PyBool False, ''new'' \<mapsto> PyInt 2]"

section \<open>Properties of NTInfo\<close>

lemma remove_flags_apply:
  "remove_flags ntype flags self k = (if k \<in> set flags \<and> k \<noteq> ntype then None else self k)"
  by (induction flags arbitrary: self) auto

lemma NTInfo_init_KeyError:
  "NTInfo_init ntype d = Inl KeyError \<longleftrightarrow>
     (d ntype = None \<or> (\<exists>v. d ntype = Some v \<and> \<not> truthy v))"
  by (auto simp: NTInfo_init_def split: option.splits)

lemma NTInfo_init_Inr:
  "NTInfo_init ntype d = Inr n \<Longrightarrow>
     n = remove_flags ntype ONE_REQUESTED d \<and> (\<exists>v. d ntype = Some v \<and> truthy v) \<and>
     d ''model'' \<noteq> None \<and> d ''prop_name'' \<noteq> None"
  by (auto simp: NTInfo_init_def ALL_REQUESTED_def split: option.splits if_splits)

lemma NTInfo_init_AssertionError:
  "NTInfo_init ntype d = Inl AssertionError \<longleftrightarrow>
     (\<exists>v. d ntype = Some v \<and> truthy v) \<and> (d ''model'' = None \<or> d ''prop_name'' = None)"
  by (auto simp: NTInfo_init_def ALL_REQUESTED_def split: option.splits)

text \<open>
  C3. Constructing \<^verbatim>\<open>NTInfo(_type, ...)\<close> raises KeyError whenever the key named by
  \<^verbatim>\<open>_type\<close> is absent from the given mapping or maps to a falsy value; and an object
  that has been constructed contains the keys \<^verbatim>\<open>model\<close> and \<^verbatim>\<open>prop_name\<close> (the
  assertion stops the constructor otherwise, and the loop deletes kind flags only).
\<close>

theorem NTInfo_init_requires_flag:
  "((d ntype = None \<or> (\<exists>v. d ntype = Some v \<and> \<not> truthy v)) \<longrightarrow>
      NTInfo_init ntype d = Inl KeyError) \<and>
   (NTInfo_init ntype d = Inr n \<longrightarrow> n ''model'' \<noteq> None \<and> n ''prop_name'' \<noteq> None)"
proof (intro conjI impI)
  assume "d ntype = None \<or> (\<exists>v. d ntype = Some v \<and> \<not> truthy v)"
  then show "NTInfo_init ntype d = Inl KeyError"
    by (simp add: NTInfo_init_KeyError)
next
  assume a: "NTInfo_init ntype d = Inr n"
  from NTInfo_init_Inr[OF a] show "n ''model'' \<noteq> None"
    by (simp add: remove_flags_apply ONE_REQUESTED_def)
  from NTInfo_init_Inr[OF a] show "n ''prop_name'' \<noteq> None"
    by (simp add: remove_flags_apply ONE_REQUESTED_def)
qed

text \<open>
  The theorem at \<open>info_assign\<close>: \<^verbatim>\<open>signal\<close> is absent and \<^verbatim>\<open>before\<close> is
  \<^verbatim>\<open>False\<close>, so both raise KeyError; \<^verbatim>\<open>assign\<close> constructs the object, which has
  \<^verbatim>\<open>model\<close> and \<^verbatim>\<open>prop_name\<close>.
\<close>

theorem NTInfo_init_requires_flag_witness:
  "NTInfo_init ''signal'' info_assign = Inl KeyError \<and>
   NTInfo_init ''before'' info_assign = Inl KeyError \<and>
   NTInfo_init ''assign'' info_assign = Inr (remove_flags ''assign'' ONE_REQUESTED info_assign) \<and>
   remove_flags ''assign'' ONE_REQUESTED info_assign ''model'' \<noteq> None \<and>
   remove_flags ''assign'' ONE_REQUESTED info_assign ''prop_name'' \<noteq> None"
proof -
  have c: "NTInfo_init ''assign'' info_assign = Inr (remove_flags ''assign'' ONE_REQUESTED info_assign)"
    by (simp add: NTInfo_init_def info_assign_def ALL_REQUESTED_def)
  have a: "info_assign ''signal'' = None"
    by (simp add: info_assign_def)
  have b: "info_assign ''before'' = Some (PyBool False) \<and> \<not> truthy (PyBool False)"
    by (simp add: info_assign_def)
  from NTInfo_init_requires_flag[of info_assign "''signal''"] a
  have 1: "NTInfo_init ''signal'' info_assign = Inl KeyError" by simp
  from NTInfo_init_requires_flag[of info_assign "''before''"] b
  have 2: "NTInfo_init ''before'' info_assign = Inl KeyError" by blast
  from NTInfo_init_requires_flag[of info_assign "''assign''"
         "remove_flags ''assign'' ONE_REQUESTED info_assign"] c
  have 3: "remove_flags ''assign'' ONE_REQUESTED info_assign ''model'' \<noteq> None \<and>
           remove_flags ''assign'' ONE_REQUESTED info_assign ''prop_name'' \<noteq> None" by simp
  from 1 2 3 c show ?thesis by simp
qed

text \<open>
  C8. After constructing \<^verbatim>\<open>NTInfo(_type, ...)\<close> with \<^verbatim>\<open>_type\<close> one of the four
  kind flags \<^verbatim>\<open>assign\<close>, \<^verbatim>\<open>before\<close>, \<^verbatim>\<open>after\<close>, \<^verbatim>\<open>signal\<close>, the mapping
  contains exactly one of the four: the flag named by \<^verbatim>\<open>_type\<close> is present and truthy
  (with the value the caller gave), and every other of the four is absent, also when the
  caller supplied it. Every other key is as the caller gave it.
\<close>

theorem NTInfo_init_one_flag:
  assumes "ntype \<in> set ONE_REQUESTED" and "NTInfo_init ntype d = Inr n"
  shows "(\<exists>v. n ntype = Some v \<and> truthy v) \<and> n ntype = d ntype \<and>
         (\<forall>flag \<in> set ONE_REQUESTED. flag \<noteq> ntype \<longrightarrow> n flag = None) \<and>
         (\<forall>flag \<in> set ONE_REQUESTED. n flag \<noteq> None \<longleftrightarrow> flag = ntype) \<and>
         (\<forall>k. k \<notin> set ONE_REQUESTED \<longrightarrow> n k = d k)"
  using NTInfo_init_Inr[OF assms(2)] assms(1)
  by (auto simp: remove_flags_apply)

text \<open>
  The theorem at \<open>info_two_flags\<close>, which supplies \<^verbatim>\<open>assign\<close>, \<^verbatim>\<open>signal\<close> and
  \<^verbatim>\<open>before\<close>: constructed as an \<^verbatim>\<open>assign\<close> notification it keeps \<^verbatim>\<open>assign\<close>
  and loses the other two.
\<close>

theorem NTInfo_init_one_flag_witness:
  "''assign'' \<in> set ONE_REQUESTED \<and>
   NTInfo_init ''assign'' info_two_flags = Inr (remove_flags ''assign'' ONE_REQUESTED info_two_flags) \<and>
   remove_flags ''assign'' ONE_REQUESTED info_two_flags ''assign'' = Some (PyBool True) \<and>
   info_two_flags ''signal'' = Some (PyBool True) \<and>
   remove_flags ''assign'' ONE_REQUESTED info_two_flags ''signal'' = None \<and>
   remove_flags ''assign'' ONE_REQUESTED info_two_flags ''before'' = None \<and>
   remove_flags ''assign'' ONE_REQUESTED info_two_flags ''after'' = None \<and>
   remove_flags ''assign'' ONE_REQUESTED info_two_flags ''new'' = Some (PyInt 2)"
proof -
  have m: "''assign'' \<in> set ONE_REQUESTED" by (simp add: ONE_REQUESTED_def)
  have c: "NTInfo_init ''assign'' info_two_flags =
             Inr (remove_flags ''assign'' ONE_REQUESTED info_two_flags)"
    by (simp add: NTInfo_init_def info_two_flags_def ALL_REQUESTED_def)
  from NTInfo_init_one_flag[OF m c] m c show ?thesis
    by (simp add: ONE_REQUESTED_def info_two_flags_def)
qed

text \<open>
  The constructor does not check that \<^verbatim>\<open>_type\<close> is one of the four kind flags (the
  framework passes no other): with \<^verbatim>\<open>_type = "model"\<close> the check of line 43 is passed
  on the key \<^verbatim>\<open>model\<close>, and the object is constructed with none of the four.
\<close>

lemma NTInfo_init_other_type:
  "(case NTInfo_init ''model'' [''model'' \<mapsto> PyObj 0, ''prop_name'' \<mapsto> PyStr ''x''] of
      Inl e \<Rightarrow> False
    | Inr n \<Rightarrow> n ''assign'' = None \<and> n ''before'' = None \<and> n ''after'' = None \<and>
               n ''signal'' = None) \<and>
   (case NTInfo_init ''model''
           [''model'' \<mapsto> PyObj 0, ''prop_name'' \<mapsto> PyStr ''x'', ''assign'' \<mapsto> PyBool True] of
      Inl e \<Rightarrow> False
    | Inr n \<Rightarrow> n ''assign'' = None \<and> n ''before'' = None \<and> n ''after'' = None \<and>
               n ''signal'' = None)"
  by (simp add: NTInfo_init_def ALL_REQUESTED_def ONE_REQUESTED_def)

lemma NTInfo_getattr_key: "self k = Some v \<Longrightarrow> NTInfo_getattr self k = Inr v"
  by (simp add: NTInfo_getattr_def)

lemma NTInfo_getattr_no_key: "self k = None \<Longrightarrow> NTInfo_getattr self k = Inl AttributeError"
  by (simp add: NTInfo_getattr_def)

text \<open>
  For a name that the normal lookup does not find, attribute access is
  \<^verbatim>\<open>__getattr__\<close>: the entry of a key, AttributeError otherwise.
\<close>

lemma attribute_access_not_found:
  assumes "\<not> found k"
  shows "attribute_access found self k =
           (case self k of Some v \<Rightarrow> Inr (Entry v) | None \<Rightarrow> Inl AttributeError)"
  using assms by (simp add: attribute_access_def NTInfo_getattr_def split: option.splits)

text \<open>
  C5. Every key of an \<^verbatim>\<open>NTInfo\<close> is claimed to be readable as an attribute, \<^verbatim>\<open>n.k\<close>
  giving \<^verbatim>\<open>n[k]\<close>. A key that is also the name of a \<^verbatim>\<open>dict\<close> method is not:
  \<open>info_items\<close> has the key \<^verbatim>\<open>items\<close> with value 5, the constructor keeps it, and
  \<^verbatim>\<open>n.items\<close> is the method inherited from \<^verbatim>\<open>dict\<close>; \<^verbatim>\<open>__getattr__\<close> is not called.
\<close>

theorem attribute_access_shadowed_key:
  "NTInfo_init ''assign'' info_items = Inr (remove_flags ''assign'' ONE_REQUESTED info_items) \<and>
   remove_flags ''assign'' ONE_REQUESTED info_items ''items'' = Some (PyInt 5) \<and>
   attribute_access (\<lambda>k. k \<in> set dict_methods)
     (remove_flags ''assign'' ONE_REQUESTED info_items) ''items'' = Inr (Inherited ''items'')"
  by (simp add: NTInfo_init_def info_items_def ALL_REQUESTED_def ONE_REQUESTED_def
        attribute_access_def dict_methods_def)

text \<open>
  C6, as stated: no operation of the public interface changes the entries of a
  constructed \<^verbatim>\<open>NTInfo\<close>. Item assignment, inherited from \<^verbatim>\<open>dict\<close>, does:
  after \<^verbatim>\<open>n["new"] = 3\<close> the entry \<^verbatim>\<open>new\<close> of the object constructed from
  \<open>info_assign\<close> is 3 and no longer 2.
\<close>

theorem NTInfo_setitem_counterexample:
  "NTInfo_init ''assign'' info_assign = Inr (remove_flags ''assign'' ONE_REQUESTED info_assign) \<and>
   remove_flags ''assign'' ONE_REQUESTED info_assign ''new'' = Some (PyInt 2) \<and>
   snd (nt_apply (SetItem ''new'' (PyInt 3))
          (remove_flags ''assign'' ONE_REQUESTED info_assign)) ''new'' = Some (PyInt 3)"
  by (simp add: NTInfo_init_def info_assign_def ALL_REQUESTED_def ONE_REQUESTED_def)

text \<open>
  C6, amended: the operations that read an \<^verbatim>\<open>NTInfo\<close> (attribute access through
  \<^verbatim>\<open>__getattr__\<close>, and item lookup) leave every entry as it is, whether they return or
  raise; the item assignment and deletion inherited from \<^verbatim>\<open>dict\<close> stay available and
  are the operations that change entries.
\<close>

theorem NTInfo_reads_leave_entries:
  "reads_only op \<Longrightarrow> snd (nt_apply op self) = self"
  by (cases op) simp_all

theorem NTInfo_reads_leave_entries_witness:
  "reads_only (GetAttr ''old'') \<and> snd (nt_apply (GetAttr ''old'') info_assign) = info_assign \<and>
   reads_only (GetItem ''absent'') \<and> snd (nt_apply (GetItem ''absent'') info_assign) = info_assign"
  using NTInfo_reads_leave_entries[of "GetAttr ''old''" info_assign]
        NTInfo_reads_leave_entries[of "GetItem ''absent''" info_assign]
  by simp

section \<open>Registration and removal keep the dictionaries consistent\<close>

lemma register_notification_raises:
  "fst (register_notification p m ka s) = Inl e \<Longrightarrow>
     e = raise_ValueError m \<and> snd (register_notification p m ka s) = s"
  by (auto simp: register_notification_def domIff Let_def split: if_splits)

lemma register_notification_failed:
  "register_notification p m ka s = (Inl e, s') \<Longrightarrow> e = raise_ValueError m \<and> s' = s"
  using register_notification_raises[of p m ka s e] by simp

lemma pattern_methods_update:
  "pattern_methods (s\<lparr>PAT_TO_METHS := AList.update p ms (PAT_TO_METHS s)\<rparr>) q =
     (if q = p then ms else pattern_methods s q)"
  by (simp add: pattern_methods_def update_conv')

lemma register_notification_exact:
  assumes "register_notification p m ka s = (Inr u, s')"
  shows "exact_methods s' q = (if \<not> has_wildcards p \<and> q = p then insert m (exact_methods s q) else exact_methods s q)"
  using assms
  by (auto simp: register_notification_def domIff Let_def exact_methods_def split: if_splits)

lemma register_notification_pattern:
  assumes "register_notification p m ka s = (Inr u, s')"
  shows "pattern_methods s' q = (if has_wildcards p \<and> q = p then insert m (pattern_methods s q) else pattern_methods s q)"
  using assms
  by (auto simp: register_notification_def domIff Let_def pattern_methods_def update_conv' split: if_splits)

lemma consistent_empty: "consistent Observer_empty"
  by (simp add: consistent_def Observer_empty_def pattern_methods_def exact_methods_def)

lemma consistent_register:
  assumes "consistent s"
  shows "consistent (snd (register_notification p m ka s))"
proof (cases "fst (register_notification p m ka s)")
  case (Inl e)
  then show ?thesis using register_notification_raises[of p m ka s e] assms by simp
next
  case (Inr u)
  obtain s' where s': "register_notification p m ka s = (Inr u, s')"
    using Inr by (cases "register_notification p m ka s") auto
  note ex = register_notification_exact[OF s'] and pt = register_notification_pattern[OF s']
  show ?thesis
  proof (cases "has_wildcards p")
    case True
    with s' have flds: "METH_TO_PAT s m = None"
       "METH_TO_PAT s' = (METH_TO_PAT s)(m \<mapsto> p)"
       "METH_TO_PROPS s' = METH_TO_PROPS s"
       "PROP_TO_METHS s' = PROP_TO_METHS s"
       "PAT_TO_METHS s' = AList.update p (insert m (pattern_methods s p)) (PAT_TO_METHS s)"
       "PAT_METH_TO_KWARGS s' = (PAT_METH_TO_KWARGS s)((p, m) \<mapsto> ka)"
      by (auto simp: register_notification_def domIff Let_def split: if_splits)
    from assms True flds(1) show ?thesis
      unfolding s' snd_conv consistent_def ex pt flds(2-)
      by (auto simp: distinct_update)
  next
    case False
    with s' have flds: "METH_TO_PAT s m = None"
       "METH_TO_PAT s' = METH_TO_PAT s"
       "METH_TO_PROPS s' = (METH_TO_PROPS s)(m \<mapsto> insert p (case METH_TO_PROPS s m of None \<Rightarrow> {} | Some ps \<Rightarrow> ps))"
       "PROP_TO_METHS s' = (PROP_TO_METHS s)(p \<mapsto> insert m (exact_methods s p))"
       "PAT_TO_METHS s' = PAT_TO_METHS s"
       "PAT_METH_TO_KWARGS s' = (PAT_METH_TO_KWARGS s)((p, m) \<mapsto> ka)"
      by (auto simp: register_notification_def domIff Let_def split: if_splits)
    from assms False flds(1) show ?thesis
      unfolding s' snd_conv consistent_def ex pt flds(2-)
      by (auto split: option.splits) (metis option.distinct(1), metis option.inject)
  qed
qed

lemma consistent_del_kwargs:
  assumes "consistent s" and "m \<notin> exact_methods s p"
  shows "consistent (s\<lparr>PAT_METH_TO_KWARGS := (PAT_METH_TO_KWARGS s)((p, m) := None)\<rparr>)"
  using assms unfolding consistent_def
  by (auto simp: exact_methods_def pattern_methods_def)

lemma consistent_del_pattern:
  assumes "consistent s" and "METH_TO_PAT s m = Some pat"
  shows "consistent (s\<lparr>METH_TO_PAT := (METH_TO_PAT s)(m := None),
            PAT_TO_METHS := AList.update pat (pattern_methods s pat - {m}) (PAT_TO_METHS s)\<rparr>)"
    (is "consistent ?s2")
proof -
  have pt: "pattern_methods ?s2 q = (if q = pat then pattern_methods s pat - {m} else pattern_methods s q)" for q
    by (simp add: pattern_methods_def update_conv')
  have ex: "exact_methods ?s2 q = exact_methods s q" for q
    by (simp add: exact_methods_def)
  have other: "q \<noteq> pat \<Longrightarrow> m \<notin> pattern_methods s q" for q
    using assms unfolding consistent_def by auto
  show ?thesis
    using assms other unfolding consistent_def pt ex
    by (auto simp: distinct_update)
qed

lemma consistent_del_meth_to_pat:
  assumes "consistent s" and "METH_TO_PAT s m = Some pat" and "m \<notin> pattern_methods s pat"
  shows "consistent (s\<lparr>METH_TO_PAT := (METH_TO_PAT s)(m := None)\<rparr>)" (is "consistent ?s1")
proof -
  have pt: "pattern_methods ?s1 q = pattern_methods s q" for q
    by (simp add: pattern_methods_def)
  have ex: "exact_methods ?s1 q = exact_methods s q" for q
    by (simp add: exact_methods_def)
  have other: "m \<notin> pattern_methods s q" for q
    using assms unfolding consistent_def by auto
  show ?thesis
    using assms(1) other unfolding consistent_def pt ex
    by auto
qed

lemma consistent_remove_one:
  assumes "consistent s"
  shows "consistent (snd (remove_one f p m s))"
proof (cases "PROP_TO_METHS s p")
  case (Some ms)
  show ?thesis
  proof (cases "m \<in> ms")
    case False
    with Some assms show ?thesis by (simp add: remove_one_def)
  next
    case True
    define s1 where "s1 = s\<lparr>PROP_TO_METHS := (PROP_TO_METHS s)(p \<mapsto> ms - {m})\<rparr>"
    have ex1: "exact_methods s1 q = (if q = p then exact_methods s p - {m} else exact_methods s q)" for q
      using Some by (simp add: s1_def exact_methods_def)
    have pt1: "pattern_methods s1 q = pattern_methods s q" for q
      by (simp add: s1_def pattern_methods_def)
    have c1: "consistent s1"
      using assms Some unfolding consistent_def ex1 pt1
      by (auto simp: s1_def)
    have nm: "m \<notin> exact_methods s1 p" by (simp add: ex1)
    from Some True c1 consistent_del_kwargs[OF c1 nm] show ?thesis
      by (simp add: remove_one_def Let_def s1_def)
  qed
next
  case None
  show ?thesis
  proof (cases "METH_TO_PAT s m")
    case N: None
    with None assms show ?thesis by (simp add: remove_one_def)
  next
    case (Some pat)
    have wc: "has_wildcards pat" using assms Some unfolding consistent_def by blast
    have nex: "exact_methods s' pat = {}" if "PROP_TO_METHS s' = PROP_TO_METHS s" for s'
      using assms wc that unfolding consistent_def exact_methods_def
      by (auto split: option.splits)
    show ?thesis
    proof (cases "f p pat")
      case False
      have "consistent (s\<lparr>PAT_METH_TO_KWARGS := (PAT_METH_TO_KWARGS s)((pat, m) := None)\<rparr>)"
        using consistent_del_kwargs[OF assms, of m pat] nex[of s] by simp
      with None Some False assms show ?thesis
        by (simp add: remove_one_def)
    next
      case True
      show ?thesis
      proof (cases "m \<in> pattern_methods s pat")
        case False
        have c1: "consistent (s\<lparr>METH_TO_PAT := (METH_TO_PAT s)(m := None)\<rparr>)"
          using consistent_del_meth_to_pat[OF assms Some False] .
        from False None Some True c1 show ?thesis
          by (auto simp: remove_one_def Let_def pattern_methods_def split: option.splits)
      next
        case in_ms: True
        then obtain ms where ms: "map_of (PAT_TO_METHS s) pat = Some ms" "m \<in> ms"
          by (auto simp: pattern_methods_def split: option.splits)
        define s2 where "s2 = s\<lparr>METH_TO_PAT := (METH_TO_PAT s)(m := None),
            PAT_TO_METHS := AList.update pat (pattern_methods s pat - {m}) (PAT_TO_METHS s)\<rparr>"
        have c2: "consistent s2"
          unfolding s2_def using consistent_del_pattern[OF assms Some] .
        have pm: "pattern_methods s pat = ms" using ms by (simp add: pattern_methods_def)
        have c3: "consistent (s2\<lparr>PAT_METH_TO_KWARGS := (PAT_METH_TO_KWARGS s2)((pat, m) := None)\<rparr>)"
          using consistent_del_kwargs[OF c2, of m pat] nex[of s2] by (simp add: s2_def)
        from None Some True ms c2 c3 show ?thesis
          by (simp add: remove_one_def Let_def s2_def pm)
      qed
    qed
  qed
qed

lemma consistent_remove_observing_method:
  "consistent s \<Longrightarrow> consistent (snd (remove_observing_method f ps m s))"
proof (induction ps arbitrary: s)
  case Nil
  then show ?case by simp
next
  case (Cons p ps)
  from consistent_remove_one[OF Cons.prems, of f p m] Cons.IH[of "snd (remove_one f p m s)"]
  show ?case
    by (cases "remove_one f p m s") (auto split: sum.splits)
qed


text \<open>The constructor's loops only register, so what it returns is consistent.\<close>

lemma consistent_register_pnames:
  "consistent s \<Longrightarrow> register_pnames m pp obs (s, cpp) = Inr (s', cpp') \<Longrightarrow> consistent s'"
proof (induction obs arbitrary: s cpp)
  case Nil
  then show ?case by simp
next
  case (Cons a obs)
  obtain pname ka where a: "a = (pname, ka)" by (cases a)
  show ?case
  proof (cases "pname \<in> pp")
    case True
    with Cons a show ?thesis by simp
  next
    case False
    obtain r s1 where r: "register_notification pname m ka s = (r, s1)"
      by (cases "register_notification pname m ka s")
    have c1: "consistent s1"
      using consistent_register[OF Cons.prems(1), of pname m ka] r by simp
    from Cons.prems(2) a False r
    have "register_pnames m pp obs (s1, insert pname cpp) = Inr (s', cpp')"
      by (cases r) auto
    with Cons.IH[OF c1] show ?thesis by simp
  qed
qed

lemma consistent_process_meths:
  "consistent s \<Longrightarrow> process_meths inst mro pp ms (s, cpp) = Inr (s', cpp') \<Longrightarrow> consistent s'"
proof (induction ms arbitrary: s cpp)
  case Nil
  then show ?case by simp
next
  case (Cons a ms)
  obtain name meth obs where a: "a = (name, meth, obs)" by (cases a)
  from Cons.prems(2) a obtain m s1 cpp1 where
    m: "getattr_self inst mro name = Inr m"
    and 1: "register_pnames m pp obs (s, cpp) = Inr (s1, cpp1)"
    and 2: "process_meths inst mro pp ms (s1, cpp1) = Inr (s', cpp')"
    by (auto split: sum.splits)
  from consistent_register_pnames[OF Cons.prems(1) 1] Cons.IH 2 show ?case by blast
qed

lemma consistent_process_classes:
  "consistent s \<Longrightarrow> process_classes inst mro cs (s, pp) = Inr s' \<Longrightarrow> consistent s'"
proof (induction cs arbitrary: s pp)
  case Nil
  then show ?case by simp
next
  case (Cons c cs)
  from Cons.prems(2) obtain s1 cpp1 where
    1: "process_meths inst mro pp (meths c) (s, {}) = Inr (s1, cpp1)"
    and 2: "process_classes inst mro cs (s1, pp \<union> cpp1) = Inr s'"
    by (auto split: sum.splits)
  from consistent_process_meths[OF Cons.prems(1) 1] Cons.IH 2 show ?case by blast
qed

lemma consistent_Observer_init: "Observer_init inst mro = Inr s \<Longrightarrow> consistent s"
  unfolding Observer_init_def using consistent_process_classes[OF consistent_empty] .

lemma reachable_consistent: "reachable f s \<Longrightarrow> consistent s"
proof (induction rule: reachable.induct)
  case (constructed inst mro self)
  then show ?case by (rule consistent_Observer_init)
next
  case (observed self notified name kwargs)
  then show ?case by (simp add: observe_def consistent_register)
next
  case (removed self prop_names notified_method)
  then show ?case by (simp add: consistent_remove_observing_method)
qed

section \<open>Dispatch: get_observing_methods\<close>

lemma foldl_union: "foldl (\<union>) A xs = A \<union> \<Union>(set xs)"
  by (induction xs arbitrary: A) auto

lemma get_observing_methods_items:
  "get_observing_methods f s p =
     \<Union>{ms. \<exists>pat. (pat, ms) \<in> set (PAT_TO_METHS s) \<and> f p pat} \<union> exact_methods s p"
  by (auto simp: get_observing_methods_def foldl_union)

lemma get_observing_methods_consistent:
  assumes "distinct (map fst (PAT_TO_METHS s))"
  shows "get_observing_methods f s p =
     exact_methods s p \<union> (\<Union>pat \<in> {pat. f p pat}. pattern_methods s pat)"
  unfolding get_observing_methods_items pattern_methods_def using assms
  by (auto split: option.splits dest: map_of_SomeD) force+


section \<open>When a registration raises\<close>

lemma consistent_pattern_wildcards:
  "consistent s \<Longrightarrow> m \<in> pattern_methods s pat \<Longrightarrow> has_wildcards pat"
  unfolding consistent_def by blast

lemma consistent_raises_pattern:
  assumes "consistent s" and "m \<in> pattern_methods s pat"
  shows "register_notification name m ka s = (Inl (raise_ValueError m), s)"
proof -
  from assms have "METH_TO_PAT s m = Some pat" unfolding consistent_def by blast
  then show ?thesis by (simp add: register_notification_def domIff Let_def)
qed

lemma consistent_raises_exact_wildcard:
  assumes "consistent s" and "m \<in> exact_methods s p" and "has_wildcards name"
  shows "register_notification name m ka s = (Inl (raise_ValueError m), s)"
proof -
  from assms obtain ps where "METH_TO_PROPS s m = Some ps" "p \<in> ps"
    unfolding consistent_def by blast
  with assms(3) show ?thesis by (auto simp: register_notification_def domIff Let_def)
qed

lemma consistent_raises_exact_same:
  assumes "consistent s" and "m \<in> exact_methods s p"
  shows "register_notification p m ka s = (Inl (raise_ValueError m), s)"
proof -
  from assms have "PAT_METH_TO_KWARGS s (p, m) \<noteq> None" unfolding consistent_def by blast
  then show ?thesis by (auto simp: register_notification_def domIff Let_def)
qed

lemma register_notification_twice:
  assumes "fst (register_notification p m ka s) = Inr ()"
  shows "register_notification p m ka' (snd (register_notification p m ka s)) =
           (Inl (raise_ValueError m), snd (register_notification p m ka s))"
proof -
  from assms have "PAT_METH_TO_KWARGS (snd (register_notification p m ka s)) (p, m) \<noteq> None"
    by (auto simp: register_notification_def domIff Let_def split: if_splits)
  then show ?thesis
    by (simp add: register_notification_def[of p m ka'] domIff Let_def)
qed

section \<open>The observer of the class Derived\<close>

lemma has_wildcards_simps:
  "has_wildcards ''a*''" "has_wildcards ''b?''" "\<not> has_wildcards ''a''" "\<not> has_wildcards ''b''"
  "\<not> has_wildcards ''c''"
  by (simp_all add: has_wildcards_def WILDCARDS_def)

lemma Derived_init: "Observer_init Derived_inst Derived_mro = Inr Derived_observer"
  apply (simp add: Observer_init_def Derived_mro_def Derived_class_def Base_class_def Observer_class_def meths_def
     Derived_inst_def getattr_self_def register_notification_def Observer_empty_def has_wildcards_simps
     pattern_methods_def exact_methods_def Let_def Derived_observer_def)
  apply (auto simp: fun_eq_iff)
  done

lemma Derived_reachable: "reachable f Derived_observer"
  by (rule reachable.constructed[OF Derived_init])

lemma Derived_exact:
  "exact_methods Derived_observer p =
     (if p = ''a'' then {Method 3} else if p = ''b'' then {Method 4} else {})"
  by (simp add: exact_methods_def Derived_observer_def)

lemma Derived_pattern:
  "pattern_methods Derived_observer pat = (if pat = ''a*'' then {Method 5, Method 6} else {})"
  by (simp add: pattern_methods_def Derived_observer_def)

lemma Derived_get:
  "get_observing_methods f Derived_observer p =
     (if f p ''a*'' then {Method 5, Method 6} else {}) \<union> exact_methods Derived_observer p"
  by (simp add: get_observing_methods_def Derived_observer_def)

section \<open>The constructor: the states it passes through, and how it fails\<close>

text \<open>
  The constructor starts from the empty dictionaries and only registers, so every observer
  it holds between two registrations is a reachable one; and the only exception that
  leaves it is that of a failed registration: ValueError, or AttributeError when the
  callable has no \<^verbatim>\<open>__name__\<close> for the message (\<^verbatim>\<open>getattr(self, name)\<close> itself
  cannot fail for a name taken from a class of the method resolution order).
\<close>

lemma reachable_empty: "reachable f Observer_empty"
  by (rule reachable.constructed[of Map.empty "[]"]) (simp add: Observer_init_def)

lemma reachable_register:
  "reachable f s \<Longrightarrow> reachable f (snd (register_notification p m ka s))"
  using reachable.observed[of f s m p ka] by (simp add: observe_def)

lemma reachable_register_pnames:
  "reachable f s \<Longrightarrow> register_pnames m pp obs (s, cpp) = Inr (s', cpp') \<Longrightarrow> reachable f s'"
proof (induction obs arbitrary: s cpp)
  case Nil
  then show ?case by simp
next
  case (Cons a obs)
  obtain pname ka where a: "a = (pname, ka)" by (cases a)
  show ?case
  proof (cases "pname \<in> pp")
    case True
    with Cons a show ?thesis by simp
  next
    case False
    obtain r s1 where r: "register_notification pname m ka s = (r, s1)"
      by (cases "register_notification pname m ka s")
    have c1: "reachable f s1"
      using reachable_register[OF Cons.prems(1), of pname m ka] r by simp
    from Cons.prems(2) a False r
    have "register_pnames m pp obs (s1, insert pname cpp) = Inr (s', cpp')"
      by (cases r) auto
    with Cons.IH[OF c1] show ?thesis by simp
  qed
qed

lemma register_pnames_error:
  "register_pnames m pp obs st = Inl e \<Longrightarrow> e = raise_ValueError m"
proof (induction obs arbitrary: st)
  case Nil
  then show ?case by (cases st) simp
next
  case (Cons a obs)
  obtain pname ka where a: "a = (pname, ka)" by (cases a)
  obtain s cpp where st: "st = (s, cpp)" by (cases st)
  show ?case
  proof (cases "pname \<in> pp")
    case True
    with Cons a st show ?thesis by simp
  next
    case False
    obtain r s1 where r: "register_notification pname m ka s = (r, s1)"
      by (cases "register_notification pname m ka s")
    show ?thesis
    proof (cases r)
      case (Inl e')
      with register_notification_failed[of pname m ka s e' s1] r Cons.prems a st False
      show ?thesis by simp
    next
      case (Inr u)
      with Cons.prems a st False r
      have "register_pnames m pp obs (s1, insert pname cpp) = Inl e" by simp
      then show ?thesis by (rule Cons.IH)
    qed
  qed
qed

lemma mro_lookup_None: "mro_lookup mro name = None \<longleftrightarrow> (\<forall>cls \<in> set mro. map_of cls name = None)"
  by (induction mro) (auto split: option.splits)

lemma meths_in_class:
  "(name, meth, obs) \<in> set (meths cls) \<Longrightarrow> (name, Function meth (Some obs)) \<in> set cls"
  by (auto simp: meths_def split: attr.splits option.splits)

lemma getattr_self_declared:
  assumes "cls \<in> set mro" and "(name, meth, obs) \<in> set (meths cls)"
  shows "\<exists>m. getattr_self inst mro name = Inr m"
proof -
  from meths_in_class[OF assms(2)] have "map_of cls name \<noteq> None"
    by (metis map_of_eq_None_iff fst_conv image_eqI)
  with assms(1) have "mro_lookup mro name \<noteq> None"
    by (auto simp: mro_lookup_None)
  then show ?thesis
    by (auto simp: getattr_self_def split: option.splits attr.splits)
qed

lemma process_meths_error:
  "\<forall>x \<in> set ms. \<exists>m. getattr_self inst mro (fst x) = Inr m \<Longrightarrow>
     process_meths inst mro pp ms st = Inl e \<Longrightarrow> e \<in> {ValueError, AttributeError}"
proof (induction ms arbitrary: st)
  case Nil
  then show ?case by simp
next
  case (Cons a ms)
  obtain name meth obs where a: "a = (name, meth, obs)" by (cases a)
  from Cons.prems(1) a obtain m where m: "getattr_self inst mro name = Inr m" by auto
  show ?case
  proof (cases "register_pnames m pp obs st")
    case (Inl e')
    with Cons.prems(2) a m register_pnames_error[OF Inl] show ?thesis
      by (auto simp: raise_ValueError_def split: if_splits)
  next
    case (Inr st')
    with Cons.prems a m have "process_meths inst mro pp ms st' = Inl e" by simp
    with Cons.IH Cons.prems(1) show ?thesis by simp
  qed
qed

lemma process_classes_error:
  "set cs \<subseteq> set mro \<Longrightarrow> process_classes inst mro cs st = Inl e \<Longrightarrow>
     e \<in> {ValueError, AttributeError}"
proof (induction cs arbitrary: st)
  case Nil
  then show ?case by (cases st) simp
next
  case (Cons c cs)
  obtain s pp where st: "st = (s, pp)" by (cases st)
  have g: "\<forall>x \<in> set (meths c). \<exists>m. getattr_self inst mro (fst x) = Inr m"
  proof
    fix x assume x: "x \<in> set (meths c)"
    obtain name meth obs where "x = (name, meth, obs)" by (cases x)
    with x getattr_self_declared[of c mro name meth obs inst] Cons.prems(1)
    show "\<exists>m. getattr_self inst mro (fst x) = Inr m" by simp
  qed
  show ?case
  proof (cases "process_meths inst mro pp (meths c) (s, {})")
    case (Inl e')
    with Cons.prems(2) st process_meths_error[OF g Inl] show ?thesis by simp
  next
    case (Inr st')
    obtain s1 cpp1 where "st' = (s1, cpp1)" by (cases st')
    with Inr Cons.prems st have "process_classes inst mro cs (s1, pp \<union> cpp1) = Inl e" by simp
    with Cons.IH Cons.prems(1) show ?thesis by simp
  qed
qed

lemma Observer_init_error:
  "Observer_init inst mro = Inl e \<Longrightarrow> e \<in> {ValueError, AttributeError}"
  unfolding Observer_init_def by (rule process_classes_error[of mro mro]) simp_all

lemma Twice_init: "Observer_init Derived_inst [Twice_class, Observer_class] = Inl ValueError"
  by (simp add: Observer_init_def Twice_class_def Observer_class_def meths_def Derived_inst_def
       getattr_self_def register_notification_def domIff Observer_empty_def has_wildcards_def
       WILDCARDS_def pattern_methods_def exact_methods_def Let_def raise_ValueError_def)

section \<open>The claims about Observer\<close>

text \<open>
  C1. For every observer (any state it can reach) and every property name \<open>p\<close>,
  \<^verbatim>\<open>get_observing_methods(p)\<close> returns exactly the union of the methods registered under
  the exact name \<open>p\<close> and of the methods registered under the wildcard patterns
  \<open>pat\<close> with \<^verbatim>\<open>fnmatch.fnmatch(p, pat)\<close>; when no registration matches, it returns the
  empty set.
\<close>

theorem get_observing_methods_union:
  assumes "reachable fnmatch self"
  shows "get_observing_methods fnmatch self p =
           exact_methods self p \<union>
           (\<Union>pat \<in> {pat. has_wildcards pat \<and> fnmatch p pat}. pattern_methods self pat) \<and>
         (exact_methods self p = {} \<and>
          (\<forall>pat. has_wildcards pat \<and> fnmatch p pat \<longrightarrow> pattern_methods self pat = {})
          \<longrightarrow> get_observing_methods fnmatch self p = {})"
proof -
  have c: "consistent self" using assms by (rule reachable_consistent)
  then have d: "distinct (map fst (PAT_TO_METHS self))" by (simp add: consistent_def)
  have "(\<Union>pat \<in> {pat. fnmatch p pat}. pattern_methods self pat) =
        (\<Union>pat \<in> {pat. has_wildcards pat \<and> fnmatch p pat}. pattern_methods self pat)"
    using consistent_pattern_wildcards[OF c] by blast
  with get_observing_methods_consistent[OF d, of fnmatch p]
  have eq: "get_observing_methods fnmatch self p =
           exact_methods self p \<union>
           (\<Union>pat \<in> {pat. has_wildcards pat \<and> fnmatch p pat}. pattern_methods self pat)"
    by simp
  show ?thesis
  proof (intro conjI impI)
    show "get_observing_methods fnmatch self p =
           exact_methods self p \<union>
           (\<Union>pat \<in> {pat. has_wildcards pat \<and> fnmatch p pat}. pattern_methods self pat)"
      by (rule eq)
  next
    assume "exact_methods self p = {} \<and>
          (\<forall>pat. has_wildcards pat \<and> fnmatch p pat \<longrightarrow> pattern_methods self pat = {})"
    then show "get_observing_methods fnmatch self p = {}"
      unfolding eq by blast
  qed
qed

text \<open>
  The theorem at the observer of \<^verbatim>\<open>Derived\<close>: \<^verbatim>\<open>ab\<close> matches the pattern only,
  \<^verbatim>\<open>a\<close> is an exact name and matches the pattern, \<^verbatim>\<open>b\<close> is an exact name only, and
  nothing is registered for \<^verbatim>\<open>c\<close>.
\<close>

theorem get_observing_methods_union_witness:
  "reachable glob Derived_observer \<and>
   get_observing_methods glob Derived_observer ''ab'' = {Method 5, Method 6} \<and>
   get_observing_methods glob Derived_observer ''a'' = {Method 3, Method 5, Method 6} \<and>
   get_observing_methods glob Derived_observer ''b'' = {Method 4} \<and>
   get_observing_methods glob Derived_observer ''c'' = {}"
proof -
  have r: "reachable glob Derived_observer" by (rule Derived_reachable)
  have u: "(\<Union>pat \<in> {pat. has_wildcards pat \<and> glob p pat}. pattern_methods Derived_observer pat) =
           (if glob p ''a*'' then {Method 5, Method 6} else {})" for p
    by (auto simp: Derived_pattern has_wildcards_simps split: if_splits)
  from get_observing_methods_union[OF r, of "''ab''"]
       get_observing_methods_union[OF r, of "''a''"]
       get_observing_methods_union[OF r, of "''b''"]
       get_observing_methods_union[OF r, of "''c''"] r
  show ?thesis
    unfolding u by (auto simp: Derived_exact)
qed


text \<open>
  In every state an observer can reach (the states the constructor passes through while
  it registers the decorated methods are among them), registering a name with a wildcard
  character for a method that has a pattern registration or an exact-name registration
  reaches a \<^verbatim>\<open>raise ValueError\<close>, and so does registering an exact name for a method
  that has a pattern registration; the failed call leaves the observer as it was. The
  exception is ValueError when the method has a \<^verbatim>\<open>__name__\<close>. This holds for the
  registration itself, for \<^verbatim>\<open>observe\<close> called on the instance, and for the
  constructor's loop over the names a decorator has attached to the method.
\<close>

lemma conflicting_registration_raises:
  assumes "reachable fnmatch self"
    and "(has_wildcards name \<and> (m \<in> pattern_methods self pat \<or> m \<in> exact_methods self p)) \<or>
         (\<not> has_wildcards name \<and> m \<in> pattern_methods self pat)"
  shows "register_notification name m ka self = (Inl (raise_ValueError m), self)"
    and "observe m name ka self = (Inl (raise_ValueError m), self)"
    and "name \<notin> processed_props \<Longrightarrow>
           register_pnames m processed_props ((name, ka) # pnames_ka)
             (self, cls_processed_props) = Inl (raise_ValueError m)"
    and "has_name m \<Longrightarrow> observe m name ka self = (Inl ValueError, self)"
proof -
  have c: "consistent self" using assms(1) by (rule reachable_consistent)
  show r: "register_notification name m ka self = (Inl (raise_ValueError m), self)"
    using assms(2) consistent_raises_pattern[OF c, of m pat name ka]
      consistent_raises_exact_wildcard[OF c, of m p name ka]
    by blast
  then show o: "observe m name ka self = (Inl (raise_ValueError m), self)"
    by (simp add: observe_def)
  from r show "name \<notin> processed_props \<Longrightarrow>
           register_pnames m processed_props ((name, ka) # pnames_ka)
             (self, cls_processed_props) = Inl (raise_ValueError m)"
    by simp
  from o show "has_name m \<Longrightarrow> observe m name ka self = (Inl ValueError, self)"
    by (simp add: raise_ValueError_def)
qed

lemma one_pattern_per_method:
  assumes "reachable fnmatch self"
    and "m \<in> pattern_methods self pat" and "m \<in> pattern_methods self pat'"
  shows "pat = pat'"
  using reachable_consistent[OF assms(1)] assms(2,3) unfolding consistent_def
  by (metis option.inject)

text \<open>
  C2. Registering a name with a wildcard character for a method that already has a
  pattern registration is claimed to raise ValueError (and the docstring of
  \<^verbatim>\<open>observe\<close> says so). \<^verbatim>\<open>observe\<close> on an instance accepts any callable. For one
  without \<^verbatim>\<open>__name__\<close>, say \<^verbatim>\<open>p = functools.partial(f)\<close>, the call
  \<^verbatim>\<open>o.observe(p, "a*", assign=True)\<close> on a fresh observer registers the pattern, and
  \<^verbatim>\<open>o.observe(p, "b?", assign=True)\<close> then reaches the \<^verbatim>\<open>raise ValueError\<close> of line 466,
  whose message reads \<^verbatim>\<open>method.__name__\<close>: the exception that leaves the call is
  AttributeError. The same happens for an exact name after the pattern (line 480).
\<close>

theorem observe_conflict_nameless:
  "fst (observe (Nameless 1) ''a*'' [(''assign'', PyBool True)] Observer_empty) = Inr () \<and>
   Nameless 1 \<in> pattern_methods
      (snd (observe (Nameless 1) ''a*'' [(''assign'', PyBool True)] Observer_empty)) ''a*'' \<and>
   fst (observe (Nameless 1) ''b?'' [(''assign'', PyBool True)]
          (snd (observe (Nameless 1) ''a*'' [(''assign'', PyBool True)] Observer_empty))) =
     Inl AttributeError \<and>
   fst (observe (Nameless 1) ''c'' [(''assign'', PyBool True)]
          (snd (observe (Nameless 1) ''a*'' [(''assign'', PyBool True)] Observer_empty))) =
     Inl AttributeError"
  by (simp add: observe_def register_notification_def domIff Let_def Observer_empty_def
        has_wildcards_simps pattern_methods_def exact_methods_def raise_ValueError_def)

text \<open>
  Registering a (property name, method) pair that is registered reaches a
  \<^verbatim>\<open>raise ValueError\<close>, for exact names as for patterns, and the observer after the
  failed call is the observer before it: nothing is merged or overwritten. In particular a
  registration that succeeded fails when it is repeated, whatever keyword arguments the
  second call brings. The exception is ValueError when the method has a \<^verbatim>\<open>__name__\<close>.
\<close>

lemma repeated_registration_raises:
  assumes "reachable fnmatch self"
  shows "m \<in> exact_methods self p \<or> m \<in> pattern_methods self p \<Longrightarrow>
           register_notification p m ka self = (Inl (raise_ValueError m), self)"
    and "fst (register_notification p m ka self) = Inr () \<Longrightarrow>
           register_notification p m ka' (snd (register_notification p m ka self)) =
             (Inl (raise_ValueError m), snd (register_notification p m ka self))"
proof -
  have c: "consistent self" using assms by (rule reachable_consistent)
  show "m \<in> exact_methods self p \<or> m \<in> pattern_methods self p \<Longrightarrow>
           register_notification p m ka self = (Inl (raise_ValueError m), self)"
    using consistent_raises_exact_same[OF c, of m p ka] consistent_raises_pattern[OF c, of m p p ka]
    by blast
  show "fst (register_notification p m ka self) = Inr () \<Longrightarrow>
           register_notification p m ka' (snd (register_notification p m ka self)) =
             (Inl (raise_ValueError m), snd (register_notification p m ka self))"
    by (rule register_notification_twice)
qed

text \<open>
  C9. Registering the same (property name, method) pair twice is claimed to raise
  ValueError always (and the docstring of \<^verbatim>\<open>__register_notification\<close> says so). For
  a callable without \<^verbatim>\<open>__name__\<close>, say \<^verbatim>\<open>p = functools.partial(f)\<close>, the second
  \<^verbatim>\<open>o.observe(p, "a", assign=True)\<close> reaches the \<^verbatim>\<open>raise ValueError\<close> of line 455,
  whose message reads \<^verbatim>\<open>method.__name__\<close>: the exception that leaves the call is
  AttributeError. The observer is unchanged by the failed call, as the claim says.
\<close>

theorem register_twice_nameless:
  "fst (register_notification ''a'' (Nameless 1) [(''assign'', PyBool True)] Observer_empty) = Inr () \<and>
   fst (register_notification ''a'' (Nameless 1) [(''assign'', PyBool True)]
          (snd (register_notification ''a'' (Nameless 1) [(''assign'', PyBool True)]
                  Observer_empty))) = Inl AttributeError \<and>
   snd (register_notification ''a'' (Nameless 1) [(''assign'', PyBool True)]
          (snd (register_notification ''a'' (Nameless 1) [(''assign'', PyBool True)]
                  Observer_empty))) =
     snd (register_notification ''a'' (Nameless 1) [(''assign'', PyBool True)] Observer_empty)"
  by (simp add: register_notification_def domIff Let_def Observer_empty_def
        has_wildcards_simps pattern_methods_def exact_methods_def raise_ValueError_def)

text \<open>
  C7, as stated: each registered pattern has exactly one notification method, so a
  property matched by the pattern goes to exactly one handler. The class \<^verbatim>\<open>Derived\<close>
  decorates two methods with the pattern \<^verbatim>\<open>a*\<close>; its constructor registers both, and
  a change of \<^verbatim>\<open>ab\<close> is dispatched to both.
\<close>

theorem pattern_two_handlers_counterexample:
  "Observer_init Derived_inst Derived_mro = Inr Derived_observer \<and>
   pattern_methods Derived_observer ''a*'' = {Method 5, Method 6} \<and>
   Method 5 \<noteq> Method 6 \<and>
   get_observing_methods glob Derived_observer ''ab'' = {Method 5, Method 6}"
  by (simp add: Derived_init Derived_pattern Derived_get Derived_exact)

text \<open>
  C7, amended: in every reachable state each notification method is stored under at most
  one wildcard pattern; a pattern may hold several methods, and a property name that the
  pattern matches is dispatched to all of them.
\<close>

theorem pattern_dispatch:
  assumes "reachable fnmatch self"
  shows "(m \<in> pattern_methods self pat \<and> m \<in> pattern_methods self pat' \<longrightarrow> pat = pat') \<and>
         (fnmatch p pat \<longrightarrow> pattern_methods self pat \<subseteq> get_observing_methods fnmatch self p)"
proof -
  have c: "consistent self" using assms by (rule reachable_consistent)
  have one: "pat = pat'" if "m \<in> pattern_methods self pat \<and> m \<in> pattern_methods self pat'"
    using c that unfolding consistent_def by (metis option.inject)
  have d: "distinct (map fst (PAT_TO_METHS self))" using c by (simp add: consistent_def)
  have sub: "pattern_methods self pat \<subseteq> get_observing_methods fnmatch self p" if "fnmatch p pat"
    using that unfolding get_observing_methods_consistent[OF d, of fnmatch p] by blast
  from one sub show ?thesis by blast
qed


theorem pattern_dispatch_witness:
  "reachable glob Derived_observer \<and>
   Method 5 \<in> pattern_methods Derived_observer ''a*'' \<and> glob ''ab'' ''a*'' \<and>
   pattern_methods Derived_observer ''a*'' \<subseteq> get_observing_methods glob Derived_observer ''ab''"
proof -
  have r: "reachable glob Derived_observer" by (rule Derived_reachable)
  from pattern_dispatch[OF r, of "Method 5" "''a*''" "''a*''" "''ab''"] r
  show ?thesis
    by (simp add: Derived_pattern)
qed


section \<open>What the constructor registers\<close>
























end
